theory Spec2Isabelle
  imports Main "HOL-Library.Char_ord" "HOL-Library.List_Lexorder" "HOL-Library.Sublist"
begin

section \<open>MySQL Router bootstrap: a model of config\_generator.cc\<close>

text \<open>
  The definitions below follow \<^verbatim>\<open>src/router/src/config_generator.cc\<close> function by
  function. Every \<^verbatim>\<open>throw std::runtime_error(...)\<close> of the source is a constructor of
  \<open>error\<close>, and a function that may throw returns \<open>error + 'a\<close> with \<open>Inl\<close> for the
  exception. A \<^verbatim>\<open>std::string\<close> is a \<open>string\<close> (a list of bytes), a
  \<^verbatim>\<open>std::map<std::string, std::string>\<close> that is only looked up is a map
  \<open>string \<rightharpoonup> string\<close>.
\<close>

subsection \<open>Errors\<close>

datatype error =
    InvalidBasePort string
  | InvalidBindAddress string
  | MoreThanOneCluster
  | MoreThanOneReplicaSet
  | UnknownTopologyType string
  | ErrorQueryingMetadata string
  | NoClustersDefined
  | MultipleMetadataCacheSections
  | InvalidRouterId string string string
  | AlreadyConfiguredForCluster string
  | LengthError
  | CannotOpenFile string

subsection \<open>The C library: strings and number parsing\<close>

text \<open>\<^verbatim>\<open>std::string::c_str\<close> read as a C string ends at the first NUL byte.\<close>

definition c_str :: "string \<Rightarrow> string" where
  "c_str s = takeWhile (\<lambda>c. c \<noteq> CHR 0x00) s"

text \<open>\<^verbatim>\<open>isspace\<close> and \<^verbatim>\<open>isdigit\<close> in the C locale.\<close>

definition isspace :: "char \<Rightarrow> bool" where
  "isspace c = (c = CHR 0x20 \<or> c = CHR 0x09 \<or> c = CHR 0x0A \<or> c = CHR 0x0B
                \<or> c = CHR 0x0C \<or> c = CHR 0x0D)"

definition isdigit :: "char \<Rightarrow> bool" where
  "isdigit c = (c \<in> set ''0123456789'')"

definition digit_value :: "char \<Rightarrow> nat" where
  "digit_value c = of_char c - 48"

fun digits_value :: "nat \<Rightarrow> string \<Rightarrow> nat" where
  "digits_value acc [] = acc"
| "digits_value acc (c # cs) = digits_value (acc * 10 + digit_value c) cs"

text \<open>
  The subject sequence of \<^verbatim>\<open>strtol\<close>/\<^verbatim>\<open>strtoul\<close> in base 10: leading white space,
  an optional sign, then the longest run of decimal digits. The result is
  (negative, magnitude, number of characters consumed); with no digit nothing is
  consumed (\<^verbatim>\<open>*endptr = nptr\<close>).
\<close>

definition subject_sequence :: "string \<Rightarrow> bool \<times> nat \<times> nat" where
  "subject_sequence s =
     (let ws = takeWhile isspace s;
          r1 = dropWhile isspace s;
          neg = (r1 \<noteq> [] \<and> hd r1 = CHR ''-'');
          signed = (r1 \<noteq> [] \<and> (hd r1 = CHR ''-'' \<or> hd r1 = CHR ''+''));
          r2 = (if signed then tl r1 else r1);
          ds = takeWhile isdigit r2
      in if ds = [] then (False, 0, 0)
         else (neg, digits_value 0 ds,
               length ws + (if signed then 1 else 0) + length ds))"

text \<open>
  \<^verbatim>\<open>long\<close> is 64 bits wide (the LP64 data model of the Unix builds, the
  non-\<^verbatim>\<open>_WIN32\<close> branch of the file), \<^verbatim>\<open>int\<close> is 32 bits wide.
\<close>

definition LONG_MAX :: int where "LONG_MAX = 9223372036854775807"
definition LONG_MIN :: int where "LONG_MIN = - 9223372036854775808"

text \<open>\<^verbatim>\<open>strtol(tmp, &end, 10)\<close>: the value, clamped to the range of \<^verbatim>\<open>long\<close>, and
  \<^verbatim>\<open>end - tmp\<close>.\<close>

definition strtol :: "string \<Rightarrow> int \<times> nat" where
  "strtol s =
     (case subject_sequence s of (neg, v, consumed) \<Rightarrow>
        (max LONG_MIN (min LONG_MAX (if neg then - int v else int v)), consumed))"


text \<open>\<^verbatim>\<open>static_cast<int>\<close> of a \<^verbatim>\<open>long\<close>: the low 32 bits, read as two's complement.\<close>

definition static_cast_int :: "int \<Rightarrow> int" where
  "static_cast_int l = (l + 2147483648) mod 4294967296 - 2147483648"


text \<open>\<^verbatim>\<open>std::to_string\<close> of an integer: decimal digits, with a minus sign if negative.\<close>

fun nat_to_string :: "nat \<Rightarrow> string" where
  "nat_to_string n =
     (if n < 10 then [char_of (48 + n)]
      else nat_to_string (n div 10) @ [char_of (48 + n mod 10)])"

definition to_string :: "int \<Rightarrow> string" where
  "to_string i = (if i < 0 then CHR ''-'' # nat_to_string (nat (- i)) else nat_to_string (nat i))"

subsection \<open>Constants of the file\<close>

definition kDefaultRWPort :: int where "kDefaultRWPort = 6446"
definition kDefaultROPort :: int where "kDefaultROPort = 6447"
definition kRWSocketName :: string where "kRWSocketName = ''mysql.sock''"
definition kROSocketName :: string where "kROSocketName = ''mysqlro.sock''"
definition kDefaultRWXPort :: int where "kDefaultRWXPort = 64460"
definition kDefaultROXPort :: int where "kDefaultROXPort = 64470"
definition kRWXSocketName :: string where "kRWXSocketName = ''mysqlx.sock''"
definition kROXSocketName :: string where "kROXSocketName = ''mysqlxro.sock''"
definition kMetadataServerPasswordLength :: int where "kMetadataServerPasswordLength = 16"

subsection \<open>Deployment options\<close>

text \<open>
  Modelled from the spec: the declaration of \<^verbatim>\<open>ConfigGenerator::Options\<close> and of its
  \<^verbatim>\<open>Endpoint\<close> is in config\_generator.h. The specification gives
  \<open>Endpoint = {port: integer (0 = unset), socket: string (empty = unset)}\<close>, present
  iff \<open>port > 0\<close> or the socket is non-empty, and the fields of the options; a freshly
  constructed value has every endpoint unset and every string empty.
\<close>

record Endpoint =
  port :: int
  socket :: string

record Options =
  multi_master :: bool
  bind_address :: string
  rw_endpoint :: Endpoint
  ro_endpoint :: Endpoint
  rw_x_endpoint :: Endpoint
  ro_x_endpoint :: Endpoint
  override_logdir :: string
  override_rundir :: string
  socketsdir :: string
  keyring_file_path :: string
  keyring_master_key_file_path :: string

definition default_Endpoint :: Endpoint where
  "default_Endpoint = \<lparr> port = 0, socket = [] \<rparr>"

definition default_Options :: Options where
  "default_Options =
     \<lparr> multi_master = False, bind_address = [],
       rw_endpoint = default_Endpoint, ro_endpoint = default_Endpoint,
       rw_x_endpoint = default_Endpoint, ro_x_endpoint = default_Endpoint,
       override_logdir = [], override_rundir = [], socketsdir = [],
       keyring_file_path = [], keyring_master_key_file_path = [] \<rparr>"

definition endpoint_present :: "Endpoint \<Rightarrow> bool" where
  "endpoint_present ep = (port ep > 0 \<or> socket ep \<noteq> [])"

subsection \<open>fill\_options\<close>

type_synonym user_options = "string \<rightharpoonup> string"

text \<open>Lines 380 to 388: the \<^verbatim>\<open>base-port\<close> option.\<close>

definition parse_base_port :: "user_options \<Rightarrow> error + int" where
  "parse_base_port user_options =
     (case user_options ''base-port'' of
        None \<Rightarrow> Inr 0
      | Some v \<Rightarrow>
          (let tmp = c_str v;
               base_port = static_cast_int (fst (strtol tmp));
               end = snd (strtol tmp)
           in if base_port \<le> 0 \<or> base_port > 65535 \<or> end \<noteq> length tmp
              then Inl (InvalidBasePort v)
              else Inr base_port))"

text \<open>\<^verbatim>\<open>base_port == 0 ? kDefault : base_port++\<close>: the port assigned and the new value
  of \<^verbatim>\<open>base_port\<close>.\<close>

definition next_port :: "int \<Rightarrow> int \<Rightarrow> int \<times> int" where
  "next_port kDefault base_port =
     (if base_port = 0 then (kDefault, base_port) else (base_port, base_port + 1))"

text \<open>Lines 405 to 416, the classic protocol. The state is the options and
  \<^verbatim>\<open>base_port\<close>.\<close>

definition fill_classic :: "bool \<Rightarrow> bool \<Rightarrow> bool \<Rightarrow> Options \<times> int \<Rightarrow> Options \<times> int" where
  "fill_classic mm use_sockets skip_tcp s =
     (let (options, base_port) = s;
          options = (if use_sockets
                     then (let options = options\<lparr>rw_endpoint := (rw_endpoint options)\<lparr>socket := kRWSocketName\<rparr>\<rparr>
                           in if \<not> mm
                              then options\<lparr>ro_endpoint := (ro_endpoint options)\<lparr>socket := kROSocketName\<rparr>\<rparr>
                              else options)
                     else options)
      in if \<not> skip_tcp
         then (let (p, base_port) = next_port kDefaultRWPort base_port;
                   options = options\<lparr>rw_endpoint := (rw_endpoint options)\<lparr>port := p\<rparr>\<rparr>
               in if \<not> mm
                  then (let (p, base_port) = next_port kDefaultROPort base_port
                        in (options\<lparr>ro_endpoint := (ro_endpoint options)\<lparr>port := p\<rparr>\<rparr>, base_port))
                  else (options, base_port))
         else (options, base_port))"

text \<open>Lines 417 to 428, the X protocol.\<close>

definition fill_x :: "bool \<Rightarrow> bool \<Rightarrow> bool \<Rightarrow> Options \<times> int \<Rightarrow> Options \<times> int" where
  "fill_x mm use_sockets skip_tcp s =
     (let (options, base_port) = s;
          options = (if use_sockets
                     then (let options = options\<lparr>rw_x_endpoint := (rw_x_endpoint options)\<lparr>socket := kRWXSocketName\<rparr>\<rparr>
                           in if \<not> mm
                              then options\<lparr>ro_x_endpoint := (ro_x_endpoint options)\<lparr>socket := kROXSocketName\<rparr>\<rparr>
                              else options)
                     else options)
      in if \<not> skip_tcp
         then (let (p, base_port) = next_port kDefaultRWXPort base_port;
                   options = options\<lparr>rw_x_endpoint := (rw_x_endpoint options)\<lparr>port := p\<rparr>\<rparr>
               in if \<not> mm
                  then (let (p, base_port) = next_port kDefaultROXPort base_port
                        in (options\<lparr>ro_x_endpoint := (ro_x_endpoint options)\<lparr>port := p\<rparr>\<rparr>, base_port))
                  else (options, base_port))
         else (options, base_port))"

text \<open>Lines 429 to 434, the directory overrides.\<close>

definition fill_dirs :: "user_options \<Rightarrow> Options \<Rightarrow> Options" where
  "fill_dirs user_options options =
     (let options = (case user_options ''logdir'' of None \<Rightarrow> options
                     | Some v \<Rightarrow> options\<lparr>override_logdir := v\<rparr>);
          options = (case user_options ''rundir'' of None \<Rightarrow> options
                     | Some v \<Rightarrow> options\<lparr>override_rundir := v\<rparr>)
      in (case user_options ''socketsdir'' of None \<Rightarrow> options
          | Some v \<Rightarrow> options\<lparr>socketsdir := v\<rparr>))"

text \<open>
  \<^verbatim>\<open>ConfigGenerator::fill_options\<close>. The validity test of \<^verbatim>\<open>TCPAddress\<close>
  (mysqlrouter/datatypes.h) is the parameter \<open>is_valid\<close>. The locals
  \<^verbatim>\<open>skip_classic_protocol\<close> and \<^verbatim>\<open>skip_x_protocol\<close> are never set by the source.
\<close>

definition fill_options :: "(string \<Rightarrow> bool) \<Rightarrow> bool \<Rightarrow> user_options \<Rightarrow> error + Options" where
  "fill_options is_valid mm user_options =
     (let skip_classic_protocol = False;
          skip_x_protocol = False
      in case parse_base_port user_options of
           Inl e \<Rightarrow> Inl e
         | Inr base_port \<Rightarrow>
             (let use_sockets = (user_options ''use-sockets'' \<noteq> None);
                  skip_tcp = (user_options ''skip-tcp'' \<noteq> None);
                  options = default_Options\<lparr>multi_master := mm\<rparr>
              in case (case user_options ''bind-address'' of
                         None \<Rightarrow> Inr options
                       | Some address \<Rightarrow>
                           if \<not> is_valid address then Inl (InvalidBindAddress address)
                           else Inr (options\<lparr>bind_address := address\<rparr>)) of
                   Inl e \<Rightarrow> Inl e
                 | Inr options \<Rightarrow>
                     (let s = (options, base_port);
                          s = (if \<not> skip_classic_protocol
                               then fill_classic mm use_sockets skip_tcp s else s);
                          s = (if \<not> skip_x_protocol
                               then fill_x mm use_sockets skip_tcp s else s)
                      in Inr (fill_dirs user_options (fst s)))))"

subsection \<open>endpoint\_option\<close>

definition endpoint_option :: "Options \<Rightarrow> Endpoint \<Rightarrow> string" where
  "endpoint_option options ep =
     (let r = [];
          r = (if port ep > 0
               then (let address = (if bind_address options \<noteq> [] then bind_address options
                                    else ''0.0.0.0'');
                         r = r @ (''bind_address='' @ address @ [CHR 0x0A])
                     in r @ (''bind_port='' @ to_string (port ep)))
               else r)
      in if socket ep \<noteq> []
         then (let r = (if r \<noteq> [] then r @ [CHR 0x0A] else r)
               in r @ (''socket='' @ socketsdir options @ ''/'' @ socket ep))
         else r)"

subsection \<open>AutoDeleter\<close>

text \<open>
  The member \<^verbatim>\<open>std::map<std::string, Type> _files\<close> is an ordered map: its iterators
  visit the entries in ascending order of the key, and \<^verbatim>\<open>std::string\<close> compares byte
  by byte, a proper prefix being smaller. It is modelled as an association list kept in
  ascending key order without duplicate keys; \<open>string\<close> carries the same order.
\<close>

datatype Type = Directory | DirectoryRecursive | File

type_synonym files_map = "(string \<times> Type) list"

text \<open>\<^verbatim>\<open>_files[k] = v\<close>\<close>

fun map_assign :: "string \<Rightarrow> Type \<Rightarrow> files_map \<Rightarrow> files_map" where
  "map_assign k v [] = [(k, v)]"
| "map_assign k v ((k', v') # m) =
     (if k < k' then (k, v) # (k', v') # m
      else if k = k' then (k, v) # m
      else (k', v') # map_assign k v m)"

text \<open>\<^verbatim>\<open>_files.erase(k)\<close>\<close>

fun map_erase :: "string \<Rightarrow> files_map \<Rightarrow> files_map" where
  "map_erase k [] = []"
| "map_erase k ((k', v') # m) = (if k = k' then m else (k', v') # map_erase k m)"

definition add_file :: "string \<Rightarrow> files_map \<Rightarrow> files_map" where
  "add_file f files = map_assign f File files"

definition add_directory :: "string \<Rightarrow> bool \<Rightarrow> files_map \<Rightarrow> files_map" where
  "add_directory d recursive files =
     map_assign d (if recursive then DirectoryRecursive else Directory) files"

definition remove :: "string \<Rightarrow> files_map \<Rightarrow> files_map" where
  "remove p files = map_erase p files"

definition clear :: "files_map \<Rightarrow> files_map" where
  "clear files = []"

text \<open>The calls the destructor makes, in the order it makes them.\<close>

datatype fs_call = delete_file string | rmdir string | delete_recursive string

fun call_path :: "fs_call \<Rightarrow> string" where
  "call_path (delete_file p) = p"
| "call_path (rmdir p) = p"
| "call_path (delete_recursive p) = p"

definition removal :: "string \<times> Type \<Rightarrow> fs_call" where
  "removal f = (case snd f of
                  File \<Rightarrow> delete_file (fst f)
                | Directory \<Rightarrow> rmdir (fst f)
                | DirectoryRecursive \<Rightarrow> delete_recursive (fst f))"

text \<open>\<^verbatim>\<open>~AutoDeleter\<close>: from \<^verbatim>\<open>rbegin\<close> to \<^verbatim>\<open>rend\<close>.\<close>

definition destroy :: "files_map \<Rightarrow> fs_call list" where
  "destroy files = map removal (rev files)"

text \<open>A sequence of member calls on a fresh \<^verbatim>\<open>AutoDeleter\<close>.\<close>

datatype guard_op = AddFile string | AddDirectory string bool | Remove string | Clear

fun apply_guard_op :: "files_map \<Rightarrow> guard_op \<Rightarrow> files_map" where
  "apply_guard_op m (AddFile f) = add_file f m"
| "apply_guard_op m (AddDirectory d recursive) = add_directory d recursive m"
| "apply_guard_op m (Remove p) = remove p m"
| "apply_guard_op m Clear = clear m"

definition run_guard :: "guard_op list \<Rightarrow> files_map" where
  "run_guard ops = foldl apply_guard_op [] ops"

text \<open>What the calls leave tracked, as a plain map: the kind of the latest tracking call
  for a path not removed since.\<close>

fun tracked_after :: "(string \<rightharpoonup> Type) \<Rightarrow> guard_op \<Rightarrow> (string \<rightharpoonup> Type)" where
  "tracked_after t (AddFile f) = t(f \<mapsto> File)"
| "tracked_after t (AddDirectory d recursive) =
     t(d \<mapsto> (if recursive then DirectoryRecursive else Directory))"
| "tracked_after t (Remove p) = t(p := None)"
| "tracked_after t Clear = Map.empty"

definition tracked :: "guard_op list \<Rightarrow> (string \<rightharpoonup> Type)" where
  "tracked ops = foldl tracked_after Map.empty ops"

text \<open>
  The ledger as the specification words it: entries in insertion order, removed on
  teardown in reverse insertion order.
\<close>

fun spec_ledger_step :: "(string \<times> Type) list \<Rightarrow> guard_op \<Rightarrow> (string \<times> Type) list" where
  "spec_ledger_step l (AddFile f) = filter (\<lambda>e. fst e \<noteq> f) l @ [(f, File)]"
| "spec_ledger_step l (AddDirectory d recursive) =
     filter (\<lambda>e. fst e \<noteq> d) l @ [(d, if recursive then DirectoryRecursive else Directory)]"
| "spec_ledger_step l (Remove p) = filter (\<lambda>e. fst e \<noteq> p) l"
| "spec_ledger_step l Clear = []"

definition spec_teardown :: "guard_op list \<Rightarrow> fs_call list" where
  "spec_teardown ops = map removal (rev (foldl spec_ledger_step [] ops))"

subsection \<open>fetch\_bootstrap\_servers\<close>

text \<open>A result row is a \<^verbatim>\<open>std::vector<const char*>\<close> of the four selected columns;
  \<open>None\<close> is the null pointer of an SQL NULL.\<close>

record row =
  cluster_name_col :: "string option"
  replicaset_name_col :: "string option"
  topology_type_col :: "string option"
  address_col :: "string option"

definition get_string :: "string option \<Rightarrow> string" where
  "get_string input_str = (case input_str of None \<Rightarrow> [] | Some s \<Rightarrow> s)"

text \<open>The variables the row callback captures by reference.\<close>

record discovery =
  bootstrap_servers :: string
  metadata_cluster :: string
  metadata_replicaset :: string
  topology_multi_master :: bool

text \<open>The lambda of lines 606 to 632, one call.\<close>

definition row_callback :: "discovery \<Rightarrow> row \<Rightarrow> error + discovery" where
  "row_callback st r =
     (if metadata_cluster st \<noteq> [] \<and> metadata_cluster st \<noteq> get_string (cluster_name_col r)
      then Inl MoreThanOneCluster
      else
       (let st = (if metadata_cluster st = []
                  then st\<lparr>metadata_cluster := get_string (cluster_name_col r)\<rparr> else st)
        in if metadata_replicaset st \<noteq> []
              \<and> metadata_replicaset st \<noteq> get_string (replicaset_name_col r)
           then Inl MoreThanOneReplicaSet
           else
            (let st = (if metadata_replicaset st = []
                       then st\<lparr>metadata_replicaset := get_string (replicaset_name_col r)\<rparr>
                       else st);
                 st = (if bootstrap_servers st \<noteq> []
                       then st\<lparr>bootstrap_servers := bootstrap_servers st @ '',''\<rparr> else st)
             in case (case topology_type_col r of
                        None \<Rightarrow> Inr st
                      | Some t \<Rightarrow>
                          if t = ''mm'' then Inr (st\<lparr>topology_multi_master := True\<rparr>)
                          else if t = ''pm'' then Inr (st\<lparr>topology_multi_master := False\<rparr>)
                          else Inl (UnknownTopologyType t)) of
                  Inl e \<Rightarrow> Inl e
                | Inr st \<Rightarrow>
                    Inr (st\<lparr>bootstrap_servers :=
                              bootstrap_servers st @ ''mysql://'' @ get_string (address_col r)\<rparr>))))"

text \<open>\<^verbatim>\<open>mysql_->query\<close> calls the callback on each row in turn; an exception of the
  callback ends the iteration and propagates.\<close>

fun query_rows :: "discovery \<Rightarrow> row list \<Rightarrow> error + discovery" where
  "query_rows st [] = Inr st"
| "query_rows st (r # rs) =
     (case row_callback st r of Inl e \<Rightarrow> Inl e | Inr st' \<Rightarrow> query_rows st' rs)"

text \<open>
  \<^verbatim>\<open>ConfigGenerator::fetch_bootstrap_servers\<close>. The session is its outcome: the rows
  it delivers and, if the query fails after them, the text of the
  \<^verbatim>\<open>MySQLSession::Error\<close>. \<open>mm0\<close> is the value the caller's \<^verbatim>\<open>multi_master\<close> holds
  on entry; the function does not initialise it.
\<close>

definition fetch_bootstrap_servers :: "row list \<Rightarrow> string option \<Rightarrow> bool \<Rightarrow> error + discovery" where
  "fetch_bootstrap_servers rows failure mm0 =
     (let st = \<lparr> bootstrap_servers = [], metadata_cluster = [], metadata_replicaset = [],
                 topology_multi_master = mm0 \<rparr>
      in case query_rows st rows of
           Inl e \<Rightarrow> Inl e
         | Inr st \<Rightarrow>
             (case failure of
                Some what \<Rightarrow> Inl (ErrorQueryingMetadata what)
              | None \<Rightarrow> if metadata_cluster st = [] then Inl NoClustersDefined else Inr st))"

subsection \<open>get\_router\_id\_from\_config\_file\<close>





subsection \<open>files\_equal and backup\_config\_file\_if\_different\<close>

text \<open>
  The file system holds regular, readable files: their bytes and whether their
  permissions are owner-only.
\<close>

record regular_file =
  data :: string
  owner_only :: bool

type_synonym filesystem = "string \<rightharpoonup> regular_file"

text \<open>\<^verbatim>\<open>seekg(0, end); tellg()\<close> on a \<^verbatim>\<open>std::ifstream\<close>: the size, or \<open>-1\<close> when the
  stream failed to open.\<close>

definition tellg_end :: "regular_file option \<Rightarrow> int" where
  "tellg_end f = (case f of None \<Rightarrow> - 1 | Some f \<Rightarrow> int (length (data f)))"

text \<open>The buffer after \<^verbatim>\<open>resize(n)\<close> and \<^verbatim>\<open>read(&buf[0], n)\<close>: the bytes read, then
  the NUL bytes \<^verbatim>\<open>resize\<close> left.\<close>

definition resize_and_read :: "regular_file option \<Rightarrow> nat \<Rightarrow> string" where
  "resize_and_read f n =
     (case f of
        None \<Rightarrow> replicate n (CHR 0x00)
      | Some f \<Rightarrow> take n (data f) @ replicate (n - length (data f)) (CHR 0x00))"

text \<open>\<^verbatim>\<open>files_equal\<close>. A \<^verbatim>\<open>resize\<close> to \<^verbatim>\<open>static_cast<size_t>(-1)\<close> throws
  \<^verbatim>\<open>std::length_error\<close>.\<close>

definition files_equal :: "filesystem \<Rightarrow> string \<Rightarrow> string \<Rightarrow> error + bool" where
  "files_equal fs f1 f2 =
     (let if1 = fs f1;
          if2 = fs f2;
          fsize = tellg_end if1
      in if fsize \<noteq> tellg_end if2 then Inr False
         else if fsize < 0 then Inl LengthError
         else (let data1 = resize_and_read if1 (nat fsize);
                   data2 = resize_and_read if2 (nat fsize)
               in Inr (data1 = data2)))"

text \<open>
  Modelled from the spec: \<^verbatim>\<open>copy_file\<close> (utils.h) and
  \<^verbatim>\<open>mysql_harness::make_file_private\<close> (filesystem.h) are not in this file. The
  specification says: copy the old file to \<^verbatim>\<open><path>.bak\<close> and harden its permissions
  to owner-only. A copy onto an existing file keeps that file's permissions; a missing
  file is an error.
\<close>

definition copy_file :: "filesystem \<Rightarrow> string \<Rightarrow> string \<Rightarrow> error + filesystem" where
  "copy_file fs src dst =
     (case fs src of
        None \<Rightarrow> Inl (CannotOpenFile src)
      | Some f \<Rightarrow>
          Inr (fs(dst \<mapsto> \<lparr> data = data f,
                            owner_only = (case fs dst of None \<Rightarrow> False
                                          | Some g \<Rightarrow> owner_only g) \<rparr>)))"

definition make_file_private :: "filesystem \<Rightarrow> string \<Rightarrow> error + filesystem" where
  "make_file_private fs p =
     (case fs p of
        None \<Rightarrow> Inl (CannotOpenFile p)
      | Some f \<Rightarrow> Inr (fs(p \<mapsto> f\<lparr>owner_only := True\<rparr>)))"

text \<open>\<^verbatim>\<open>ConfigGenerator::backup_config_file_if_different\<close>: the file system it leaves
  and the value it returns.\<close>

definition backup_config_file_if_different ::
  "filesystem \<Rightarrow> string \<Rightarrow> string \<Rightarrow> error + (filesystem \<times> bool)" where
  "backup_config_file_if_different fs config_path new_file_path =
     (if fs config_path \<noteq> None
      then (case files_equal fs config_path new_file_path of
              Inl e \<Rightarrow> Inl e
            | Inr equal \<Rightarrow>
                if \<not> equal
                then (case copy_file fs config_path (config_path @ ''.bak'') of
                        Inl e \<Rightarrow> Inl e
                      | Inr fs1 \<Rightarrow>
                          (case make_file_private fs1 (config_path @ ''.bak'') of
                             Inl e \<Rightarrow> Inl e
                           | Inr fs2 \<Rightarrow> Inr (fs2, True)))
                else Inr (fs, False))
      else Inr (fs, False))"

subsection \<open>generate\_password\<close>

definition alphabet :: string where
  "alphabet = ''1234567890abcdefghijklmnopqrstuvwxyzABCDEFGHIJKLMNOPQRSTUVWXYZ~@#%$^&*()-_=+]}[{|;:.>,</?''"

definition strlen :: "string \<Rightarrow> nat" where
  "strlen s = length (c_str s)"

text \<open>
  The loop of \<^verbatim>\<open>generate_password\<close>. \<open>dist i\<close> is the value of the call \<^verbatim>\<open>dist(rd)\<close>
  in iteration \<open>i\<close>; \<^verbatim>\<open>std::uniform_int_distribution<unsigned long> dist(0, strlen(alphabet) - 1)\<close>
  returns values of the closed range from \<open>0\<close> to \<open>strlen alphabet - 1\<close>.
\<close>

function generate_password_loop :: "(nat \<Rightarrow> nat) \<Rightarrow> int \<Rightarrow> int \<Rightarrow> string \<Rightarrow> string" where
  "generate_password_loop dist password_length i pwd =
     (if i < password_length
      then generate_password_loop dist password_length (i + 1) (pwd @ [alphabet ! dist (nat i)])
      else pwd)"
  by pat_completeness auto
termination
  by (relation "measure (\<lambda>(dist, password_length, i, pwd). nat (password_length - i))") auto

definition generate_password :: "(nat \<Rightarrow> nat) \<Rightarrow> int \<Rightarrow> string" where
  "generate_password dist password_length = generate_password_loop dist password_length 0 []"

section \<open>Properties\<close>

subsection \<open>Resolving the options\<close>

lemmas parse_base_port_simps =
  parse_base_port_def c_str_def strtol_def subject_sequence_def isspace_def isdigit_def
  digit_value_def static_cast_int_def LONG_MAX_def LONG_MIN_def

lemma fill_classic_multi_master:
  "ro_endpoint (fst (fill_classic True us st s)) = ro_endpoint (fst s)"
  "ro_x_endpoint (fst (fill_classic True us st s)) = ro_x_endpoint (fst s)"
  by (auto simp: fill_classic_def next_port_def Let_def split: prod.splits)

lemma fill_x_multi_master:
  "ro_endpoint (fst (fill_x True us st s)) = ro_endpoint (fst s)"
  "ro_x_endpoint (fst (fill_x True us st s)) = ro_x_endpoint (fst s)"
  by (auto simp: fill_x_def next_port_def Let_def split: prod.splits)

lemma fill_dirs_endpoints:
  "ro_endpoint (fill_dirs uo opts) = ro_endpoint opts"
  "ro_x_endpoint (fill_dirs uo opts) = ro_x_endpoint opts"
  "rw_endpoint (fill_dirs uo opts) = rw_endpoint opts"
  "rw_x_endpoint (fill_dirs uo opts) = rw_x_endpoint opts"
  "bind_address (fill_dirs uo opts) = bind_address opts"
  by (auto simp: fill_dirs_def Let_def split: option.splits)

lemma fill_classic_ports:
  "fill_classic mm us False (opts, b) = (opts', b') \<Longrightarrow> b > 0 \<Longrightarrow>
     port (rw_endpoint opts') = b
     \<and> port (ro_endpoint opts') = (if mm then port (ro_endpoint opts) else b + 1)
     \<and> b' = (if mm then b + 1 else b + 2)
     \<and> rw_x_endpoint opts' = rw_x_endpoint opts \<and> ro_x_endpoint opts' = ro_x_endpoint opts"
  by (auto simp: fill_classic_def next_port_def Let_def split: prod.splits if_splits)

lemma fill_x_ports:
  "fill_x mm us False (opts, b) = (opts', b') \<Longrightarrow> b > 0 \<Longrightarrow>
     port (rw_x_endpoint opts') = b
     \<and> port (ro_x_endpoint opts') = (if mm then port (ro_x_endpoint opts) else b + 1)
     \<and> b' = (if mm then b + 1 else b + 2)
     \<and> rw_endpoint opts' = rw_endpoint opts \<and> ro_endpoint opts' = ro_endpoint opts"
  by (auto simp: fill_x_def next_port_def Let_def split: prod.splits if_splits)

lemma parse_base_port_7000:
  "uo ''base-port'' = Some ''7000'' \<Longrightarrow> parse_base_port uo = Inr 7000"
  by (simp add: parse_base_port_simps)

text \<open>
  C2. Whatever the option map, when \<open>fill_options\<close> is called for a multi-primary
  topology and returns options, neither read-only endpoint is populated: the classic and
  the X read-only endpoint both have port 0 and an empty socket.
\<close>

theorem fill_options_multi_master_no_ro_endpoint:
  assumes "fill_options is_valid True user_options = Inr opts"
  shows "port (ro_endpoint opts) = 0 \<and> socket (ro_endpoint opts) = []
       \<and> port (ro_x_endpoint opts) = 0 \<and> socket (ro_x_endpoint opts) = []"
  using assms
  by (auto simp: fill_options_def Let_def fill_classic_multi_master fill_x_multi_master
        fill_dirs_endpoints default_Options_def default_Endpoint_def
        split: sum.splits option.splits if_splits)

theorem fill_options_multi_master_no_ro_endpoint_witness:
  "\<exists>opts. fill_options (\<lambda>a. True) True [''use-sockets'' \<mapsto> [], ''base-port'' \<mapsto> ''7000''] = Inr opts
      \<and> port (ro_endpoint opts) = 0 \<and> socket (ro_endpoint opts) = []
      \<and> port (ro_x_endpoint opts) = 0 \<and> socket (ro_x_endpoint opts) = []"
proof -
  have "\<exists>opts. fill_options (\<lambda>a. True) True [''use-sockets'' \<mapsto> [], ''base-port'' \<mapsto> ''7000''] = Inr opts"
    by (simp add: fill_options_def parse_base_port_7000)
  then obtain opts where
    e: "fill_options (\<lambda>a. True) True [''use-sockets'' \<mapsto> [], ''base-port'' \<mapsto> ''7000''] = Inr opts"
    by blast
  from fill_options_multi_master_no_ro_endpoint [OF e] e show ?thesis by blast
qed

lemma fill_classic_skip_tcp:
  "port (rw_endpoint (fst (fill_classic mm us True s))) = port (rw_endpoint (fst s))"
  "port (ro_endpoint (fst (fill_classic mm us True s))) = port (ro_endpoint (fst s))"
  "port (rw_x_endpoint (fst (fill_classic mm us True s))) = port (rw_x_endpoint (fst s))"
  "port (ro_x_endpoint (fst (fill_classic mm us True s))) = port (ro_x_endpoint (fst s))"
  by (auto simp: fill_classic_def Let_def split: prod.splits)

lemma fill_x_skip_tcp:
  "port (rw_endpoint (fst (fill_x mm us True s))) = port (rw_endpoint (fst s))"
  "port (ro_endpoint (fst (fill_x mm us True s))) = port (ro_endpoint (fst s))"
  "port (rw_x_endpoint (fst (fill_x mm us True s))) = port (rw_x_endpoint (fst s))"
  "port (ro_x_endpoint (fst (fill_x mm us True s))) = port (ro_x_endpoint (fst s))"
  by (auto simp: fill_x_def Let_def split: prod.splits)

text \<open>
  C3. With \<open>base-port=7000\<close>, \<open>fill_options\<close> returns options (the bind address, if
  one is given, being valid). When TCP is not skipped their ports are handed out in the
  order RW classic, RO classic, RW X, RO X: 7000, 7001, 7002, 7003 for a single-primary
  topology. For a multi-primary topology the read-only roles are skipped and take no
  number: RW classic 7000, RW X 7001. With \<open>skip-tcp\<close> no endpoint gets a port.
\<close>

theorem fill_options_base_port_7000_sequential:
  assumes bp: "user_options ''base-port'' = Some ''7000''"
    and addr: "\<forall>a. user_options ''bind-address'' = Some a \<longrightarrow> is_valid a"
  shows "\<exists>opts. fill_options is_valid mm user_options = Inr opts
           \<and> (user_options ''skip-tcp'' = None \<longrightarrow>
                port (rw_endpoint opts) = 7000
              \<and> port (ro_endpoint opts) = (if mm then 0 else 7001)
              \<and> port (rw_x_endpoint opts) = (if mm then 7001 else 7002)
              \<and> port (ro_x_endpoint opts) = (if mm then 0 else 7003))
           \<and> (user_options ''skip-tcp'' \<noteq> None \<longrightarrow>
                port (rw_endpoint opts) = 0 \<and> port (ro_endpoint opts) = 0
              \<and> port (rw_x_endpoint opts) = 0 \<and> port (ro_x_endpoint opts) = 0)"
proof -
  define us where "us = (user_options ''use-sockets'' \<noteq> None)"
  define o0 where "o0 = (case user_options ''bind-address'' of
       None \<Rightarrow> default_Options\<lparr>multi_master := mm\<rparr>
     | Some a \<Rightarrow> default_Options\<lparr>multi_master := mm, bind_address := a\<rparr>)"
  have p0: "port (rw_endpoint o0) = 0" "port (ro_endpoint o0) = 0"
    "port (rw_x_endpoint o0) = 0" "port (ro_x_endpoint o0) = 0"
    by (auto simp: o0_def default_Options_def default_Endpoint_def split: option.splits)
  have pb: "parse_base_port user_options = Inr 7000" using bp by (rule parse_base_port_7000)
  show ?thesis
  proof (cases "user_options ''skip-tcp'' = None")
    case True
    obtain o1 b1 where s1: "fill_classic mm us False (o0, 7000) = (o1, b1)" by fastforce
    obtain o2 b2 where s2: "fill_x mm us False (o1, b1) = (o2, b2)" by fastforce
    from fill_classic_ports [OF s1] have p1: "port (rw_endpoint o1) = 7000"
      "port (ro_endpoint o1) = (if mm then 0 else 7001)" "b1 = (if mm then 7001 else 7002)"
      "ro_x_endpoint o1 = ro_x_endpoint o0"
      using p0 by auto
    have "b1 > 0" using p1 by auto
    from fill_x_ports [OF s2 this] have p2: "port (rw_x_endpoint o2) = b1"
      "port (ro_x_endpoint o2) = (if mm then 0 else b1 + 1)"
      "rw_endpoint o2 = rw_endpoint o1" "ro_endpoint o2 = ro_endpoint o1"
      using p1 p0 by auto
    have "fill_options is_valid mm user_options = Inr (fill_dirs user_options o2)"
      using addr True s1 s2
      by (auto simp: fill_options_def pb Let_def us_def o0_def split: option.splits)
    then show ?thesis using True p1 p2 by (auto simp: fill_dirs_endpoints)
  next
    case False
    let ?o2 = "fst (fill_x mm us True (fill_classic mm us True (o0, 7000)))"
    have "fill_options is_valid mm user_options = Inr (fill_dirs user_options ?o2)"
      using addr False
      by (auto simp: fill_options_def pb Let_def us_def o0_def split: option.splits)
    moreover have "port (rw_endpoint ?o2) = 0" "port (ro_endpoint ?o2) = 0"
      "port (rw_x_endpoint ?o2) = 0" "port (ro_x_endpoint ?o2) = 0"
      by (simp_all add: fill_x_skip_tcp fill_classic_skip_tcp p0)
    ultimately show ?thesis using False by (simp add: fill_dirs_endpoints)
  qed
qed

theorem fill_options_base_port_7000_sequential_witness:
  "\<exists>opts. fill_options (\<lambda>a. True) False [''base-port'' \<mapsto> ''7000''] = Inr opts
           \<and> port (rw_endpoint opts) = 7000
           \<and> port (ro_endpoint opts) = 7001
           \<and> port (rw_x_endpoint opts) = 7002
           \<and> port (ro_x_endpoint opts) = 7003"
  using fill_options_base_port_7000_sequential [of "[''base-port'' \<mapsto> ''7000'']" "\<lambda>a. True" False]
  by simp

text \<open>
  C8. The option \<open>base-port=4294967297\<close> is a number above 65535. \<^verbatim>\<open>strtol\<close> returns
  it unchanged in a 64-bit \<^verbatim>\<open>long\<close>, the cast to \<^verbatim>\<open>int\<close> leaves 1, and the range check
  that follows the cast passes: \<open>fill_options\<close> returns options with the ports 1, 2, 3
  and 4 where an invalid base-port error is due.
\<close>

theorem fill_options_accepts_base_port_4294967297:
  "parse_base_port [''base-port'' \<mapsto> ''4294967297''] = Inr 1
   \<and> (\<exists>opts. fill_options (\<lambda>a. True) False [''base-port'' \<mapsto> ''4294967297''] = Inr opts
         \<and> port (rw_endpoint opts) = 1 \<and> port (ro_endpoint opts) = 2
         \<and> port (rw_x_endpoint opts) = 3 \<and> port (ro_x_endpoint opts) = 4)"
proof -
  have p: "parse_base_port [''base-port'' \<mapsto> ''4294967297''] = Inr 1"
    by (simp add: parse_base_port_simps)
  then show ?thesis
    by (simp add: fill_options_def fill_classic_def fill_x_def fill_dirs_def next_port_def
        default_Options_def default_Endpoint_def)
qed

subsection \<open>Rendering an endpoint\<close>

text \<open>
  C10. For an endpoint with a positive port, the text \<open>endpoint_option\<close> renders starts
  with the line \<open>bind_address=0.0.0.0\<close> when the options carry no bind address, and with
  \<open>bind_address=\<close> followed by the address of the options when they carry one; the
  line \<open>bind_port=\<close> and, if the endpoint has one, the socket line follow.
\<close>

theorem endpoint_option_bind_address:
  assumes "port ep > 0"
  shows "endpoint_option options ep =
     ''bind_address='' @ (if bind_address options = [] then ''0.0.0.0'' else bind_address options)
       @ [CHR 0x0A] @ ''bind_port='' @ to_string (port ep)
       @ (if socket ep = [] then []
          else [CHR 0x0A] @ ''socket='' @ socketsdir options @ ''/'' @ socket ep)"
  using assms by (simp add: endpoint_option_def Let_def)

theorem endpoint_option_bind_address_witness:
  "endpoint_option default_Options \<lparr> port = 6446, socket = [] \<rparr>
     = ''bind_address=0.0.0.0'' @ [CHR 0x0A] @ ''bind_port=6446''
   \<and> endpoint_option (default_Options\<lparr>bind_address := ''127.0.0.1''\<rparr>) \<lparr> port = 6446, socket = [] \<rparr>
     = ''bind_address=127.0.0.1'' @ [CHR 0x0A] @ ''bind_port=6446''"
proof -
  have t: "to_string 6446 = ''6446''"
    by (simp add: to_string_def char_of_def bit_Suc_0_iff)
  show ?thesis
    using endpoint_option_bind_address [of "\<lparr> port = 6446, socket = [] \<rparr>" default_Options]
      endpoint_option_bind_address [of "\<lparr> port = 6446, socket = [] \<rparr>"
        "default_Options\<lparr>bind_address := ''127.0.0.1''\<rparr>"]
    by (simp add: t default_Options_def)
qed

subsection \<open>Backing up the previous configuration\<close>

lemma files_equal_iff:
  assumes "fs f1 = Some a"
  shows "files_equal fs f1 f2 = Inr (map_option data (fs f2) = Some (data a))"
  using assms
  by (auto simp: files_equal_def tellg_end_def resize_and_read_def Let_def split: option.splits)

text \<open>
  C6. \<open>backup_config_file_if_different\<close> never fails on a file system of readable
  files. With no file at the target path it changes nothing and returns false. With a
  file there, it changes nothing and returns false when the new file holds exactly the
  same bytes; in every other case it leaves the file system with one change, a file
  \<open><path>.bak\<close> holding the bytes of the old file with owner-only permissions, and
  returns true.
\<close>

theorem backup_config_file_if_different_correct:
  "backup_config_file_if_different fs config_path new_file_path =
     (case fs config_path of
        None \<Rightarrow> Inr (fs, False)
      | Some old \<Rightarrow>
          if map_option data (fs new_file_path) = Some (data old) then Inr (fs, False)
          else Inr (fs(config_path @ ''.bak'' \<mapsto> \<lparr> data = data old, owner_only = True \<rparr>), True))"
  by (auto simp: backup_config_file_if_different_def files_equal_iff copy_file_def
        make_file_private_def split: option.splits)

theorem backup_config_file_if_different_correct_witness:
  "backup_config_file_if_different
     [''/etc/mysqlrouter.conf'' \<mapsto> \<lparr> data = ''old'', owner_only = True \<rparr>,
      ''/etc/mysqlrouter.conf.tmp'' \<mapsto> \<lparr> data = ''new'', owner_only = False \<rparr>]
     ''/etc/mysqlrouter.conf'' ''/etc/mysqlrouter.conf.tmp''
   = Inr ([''/etc/mysqlrouter.conf'' \<mapsto> \<lparr> data = ''old'', owner_only = True \<rparr>,
           ''/etc/mysqlrouter.conf.tmp'' \<mapsto> \<lparr> data = ''new'', owner_only = False \<rparr>,
           ''/etc/mysqlrouter.conf.bak'' \<mapsto> \<lparr> data = ''old'', owner_only = True \<rparr>], True)"
  using backup_config_file_if_different_correct
    [of "[''/etc/mysqlrouter.conf'' \<mapsto> \<lparr> data = ''old'', owner_only = True \<rparr>,
          ''/etc/mysqlrouter.conf.tmp'' \<mapsto> \<lparr> data = ''new'', owner_only = False \<rparr>]"
        "''/etc/mysqlrouter.conf''" "''/etc/mysqlrouter.conf.tmp''"]
  by simp

subsection \<open>The AutoDeleter\<close>

lemma keys_map_assign: "fst ` set (map_assign k v m) = insert k (fst ` set m)"
  by (induction m) (force split: if_splits)+

lemma sorted_map_assign:
  "sorted_wrt (<) (map fst m) \<Longrightarrow> sorted_wrt (<) (map fst (map_assign k v m))"
proof (induction m)
  case Nil
  then show ?case by simp
next
  case (Cons e m)
  obtain k' v' where e: "e = (k', v')" by (cases e)
  from Cons.prems have tl: "sorted_wrt (<) (map fst m)" and hd: "\<forall>x \<in> set (map fst m). k' < x"
    by (auto simp: e)
  show ?case
  proof (cases "k < k'")
    case True
    then show ?thesis using Cons.prems hd by (auto simp: e)
  next
    case False
    show ?thesis
    proof (cases "k = k'")
      case True
      then show ?thesis using Cons.prems by (simp add: e)
    next
      case ne: False
      with False have "k' < k" by simp
      then have "\<forall>x \<in> fst ` set (map_assign k v m). k' < x"
        using hd by (simp add: keys_map_assign)
      then show ?thesis using False ne Cons.IH[OF tl] by (simp add: e)
    qed
  qed
qed

lemma map_of_map_assign: "map_of (map_assign k v m) = (map_of m)(k \<mapsto> v)"
  by (induction m) (auto simp: fun_eq_iff)

lemma keys_map_erase: "fst ` set (map_erase k m) \<subseteq> fst ` set m"
  by (induction m) (force split: if_splits)+

lemma sorted_map_erase:
  "sorted_wrt (<) (map fst m) \<Longrightarrow> sorted_wrt (<) (map fst (map_erase k m))"
proof (induction m)
  case Nil
  then show ?case by simp
next
  case (Cons e m)
  from Cons.prems have tl: "sorted_wrt (<) (map fst m)"
    and hd: "\<forall>x \<in> fst ` set m. fst e < x" by auto
  have "\<forall>x \<in> fst ` set (map_erase k m). fst e < x"
    using hd keys_map_erase[of k m] by blast
  then show ?case using Cons.IH[OF tl] tl by (cases e) simp
qed

lemma map_of_map_erase:
  "sorted_wrt (<) (map fst m) \<Longrightarrow> map_of (map_erase k m) = (map_of m)(k := None)"
proof (induction m)
  case Nil
  then show ?case by simp
next
  case (Cons e m)
  obtain k' v' where e: "e = (k', v')" by (cases e)
  from Cons.prems have tl: "sorted_wrt (<) (map fst m)" and hd: "\<forall>x \<in> fst ` set m. k' < x"
    by (auto simp: e)
  show ?case
  proof (cases "k = k'")
    case True
    have "k \<notin> fst ` set m" using hd True by auto
    then have "map_of m k = None" by (simp add: map_of_eq_None_iff)
    then show ?thesis using True by (auto simp: e fun_eq_iff)
  next
    case False
    then show ?thesis using Cons.IH[OF tl] by (auto simp: e fun_eq_iff)
  qed
qed

lemma apply_guard_op_sorted:
  "sorted_wrt (<) (map fst m) \<Longrightarrow> sorted_wrt (<) (map fst (apply_guard_op m x))"
  by (cases x) (simp_all add: add_file_def add_directory_def remove_def clear_def
      sorted_map_assign sorted_map_erase)

lemma apply_guard_op_map_of:
  "sorted_wrt (<) (map fst m) \<Longrightarrow> map_of (apply_guard_op m x) = tracked_after (map_of m) x"
  by (cases x) (simp_all add: add_file_def add_directory_def remove_def clear_def
      map_of_map_assign map_of_map_erase)

lemma run_guard_invariant:
  "sorted_wrt (<) (map fst (run_guard ops)) \<and> map_of (run_guard ops) = tracked ops"
proof (induction ops rule: rev_induct)
  case Nil
  show ?case by (simp add: run_guard_def tracked_def)
next
  case (snoc x ops)
  then show ?case
    by (simp add: run_guard_def tracked_def apply_guard_op_sorted apply_guard_op_map_of)
qed

lemma sorted_keys_unique:
  assumes "sorted_wrt (<) (map fst m)"
  shows "map fst m = sorted_list_of_set (dom (map_of m))"
proof -
  have d: "distinct (map fst m)" using assms by (simp add: strict_sorted_iff)
  have s: "sorted (map fst m)" using assms by (simp add: strict_sorted_iff)
  have "sorted_list_of_set (set (map fst m)) = map fst m"
    using s d by (rule sorted_list_of_set.idem_if_sorted_distinct)
  then show ?thesis by (simp add: dom_map_of_conv_image_fst)
qed

lemma entries_from_keys:
  assumes "distinct (map fst m)"
  shows "m = map (\<lambda>p. (p, the (map_of m p))) (map fst m)"
proof -
  have "(fst e, the (map_of m (fst e))) = e" if "e \<in> set m" for e
  proof -
    have "map_of m (fst e) = Some (snd e)" using assms that by simp
    then show ?thesis by simp
  qed
  then have "map (\<lambda>e. (fst e, the (map_of m (fst e)))) m = m" by (intro map_idI) 
  then show ?thesis by (simp add: comp_def)
qed

lemma strict_prefix_less: "strict_prefix (p::string) q \<Longrightarrow> p < q"
  by (auto simp: strict_prefix_def prefix_def list_less_def intro: lexord_append_rightI)
    (metis lexord_append_rightI neq_Nil_conv)

lemma descending_before:
  assumes "sorted_wrt (\<lambda>a b. b < a) (xs :: string list)" "p \<in> set xs" "q \<in> set xs" "p < q"
  shows "\<exists>i j. i < j \<and> j < length xs \<and> xs ! i = q \<and> xs ! j = p"
proof -
  from assms(2) obtain j where j: "j < length xs" "xs ! j = p" by (auto simp: in_set_conv_nth)
  from assms(3) obtain i where i: "i < length xs" "xs ! i = q" by (auto simp: in_set_conv_nth)
  have "i < j"
  proof (rule ccontr)
    assume "\<not> i < j"
    then have "j < i \<or> j = i" by auto
    then show False
    proof
      assume "j < i"
      then have "xs ! i < xs ! j" using assms(1) i(1) by (simp add: sorted_wrt_iff_nth_less)
      then show False using i j assms(4) by simp
    next
      assume "j = i"
      then show False using i j assms(4) by simp
    qed
  qed
  then show ?thesis using i j by blast
qed

text \<open>
  C1 (as amended). When an AutoDeleter is destroyed, every path still tracked is removed
  exactly once, with the call for the kind it was last tracked as, in descending order
  of the path strings, whatever the order of the tracking calls. Hence a tracked path
  that extends another tracked path is removed before it: a file before the directory
  whose tracked path is a prefix of the file's.
\<close>

theorem AutoDeleter_removes_in_descending_path_order:
  "destroy (run_guard ops) =
     map (\<lambda>p. removal (p, the (tracked ops p))) (rev (sorted_list_of_set (dom (tracked ops))))
   \<and> (p \<in> dom (tracked ops) \<and> q \<in> dom (tracked ops) \<and> strict_prefix p q \<longrightarrow>
        (\<exists>i j. i < j \<and> j < length (destroy (run_guard ops))
            \<and> call_path (destroy (run_guard ops) ! i) = q
            \<and> call_path (destroy (run_guard ops) ! j) = p))"
proof -
  let ?m = "run_guard ops"
  have inv: "sorted_wrt (<) (map fst ?m)" "map_of ?m = tracked ops"
    using run_guard_invariant[of ops] by auto
  have keys: "map fst ?m = sorted_list_of_set (dom (tracked ops))"
    using sorted_keys_unique[OF inv(1)] inv(2) by simp
  have "distinct (map fst ?m)" using inv(1) by (simp add: strict_sorted_iff)
  from entries_from_keys[OF this]
  have m: "?m = map (\<lambda>p. (p, the (tracked ops p))) (sorted_list_of_set (dom (tracked ops)))"
    using keys inv(2) by simp
  have first: "destroy ?m = map (\<lambda>p. removal (p, the (tracked ops p))) (rev (sorted_list_of_set (dom (tracked ops))))"
    unfolding destroy_def by (subst m) (simp add: rev_map)
  have cp: "call_path (removal e) = fst e" for e
    by (cases e) (auto simp: removal_def split: Type.splits)
  have paths: "map call_path (destroy ?m) = rev (map fst ?m)"
    by (simp add: destroy_def rev_map cp comp_def)
  have desc: "sorted_wrt (\<lambda>a b. b < a) (map call_path (destroy ?m))"
    using inv(1) by (simp add: paths sorted_wrt_rev)
  have second: "\<exists>i j. i < j \<and> j < length (destroy ?m)
            \<and> call_path (destroy ?m ! i) = q \<and> call_path (destroy ?m ! j) = p"
    if "p \<in> dom (tracked ops)" "q \<in> dom (tracked ops)" "strict_prefix p q"
  proof -
    have fin: "finite (dom (tracked ops))" using inv(2) by (metis finite_dom_map_of)
    have "p \<in> set (map call_path (destroy ?m))" "q \<in> set (map call_path (destroy ?m))"
      using that fin by (simp_all add: paths keys)
    from descending_before[OF desc this strict_prefix_less[OF that(3)]]
    obtain i j where "i < j" "j < length (destroy ?m)" "map call_path (destroy ?m) ! i = q"
      "map call_path (destroy ?m) ! j = p" by auto
    then show ?thesis by (intro exI[of _ i] exI[of _ j]) simp
  qed
  show ?thesis using first second by blast
qed

theorem AutoDeleter_removes_in_descending_path_order_witness:
  "\<exists>i j. i < j \<and> j < length (destroy (run_guard [AddDirectory ''/d'' True, AddFile ''/d/f'']))
      \<and> call_path (destroy (run_guard [AddDirectory ''/d'' True, AddFile ''/d/f'']) ! i) = ''/d/f''
      \<and> call_path (destroy (run_guard [AddDirectory ''/d'' True, AddFile ''/d/f'']) ! j) = ''/d''"
proof -
  have "''/d'' \<in> dom (tracked [AddDirectory ''/d'' True, AddFile ''/d/f''])"
    "''/d/f'' \<in> dom (tracked [AddDirectory ''/d'' True, AddFile ''/d/f''])"
    "strict_prefix ''/d'' ''/d/f''"
    by (simp_all add: tracked_def strict_prefix_def)
  then show ?thesis
    using AutoDeleter_removes_in_descending_path_order
      [of "[AddDirectory ''/d'' True, AddFile ''/d/f'']" "''/d''" "''/d/f''"]
    by blast
qed

text \<open>
  The calls \<open>bootstrap_directory_deployment\<close> makes for the directory \<open>router\<close>, whose
  real path is \<open>/home/u/router\<close>: the deployment directory (recursive), the log and run
  directories, the temporary configuration file. The destructor removes the recursive
  directory first and the file third; the reverse of the tracking order would remove the
  file first and the recursive directory last.
\<close>

theorem AutoDeleter_not_reverse_insertion_order:
  "destroy (run_guard [AddDirectory ''router'' True, AddDirectory ''/home/u/router/log'' False,
       AddDirectory ''/home/u/router/run'' False, AddFile ''/home/u/router/mysqlrouter.conf.tmp''])
    = [delete_recursive ''router'', rmdir ''/home/u/router/run'',
       delete_file ''/home/u/router/mysqlrouter.conf.tmp'', rmdir ''/home/u/router/log'']
  \<and> spec_teardown [AddDirectory ''router'' True, AddDirectory ''/home/u/router/log'' False,
       AddDirectory ''/home/u/router/run'' False, AddFile ''/home/u/router/mysqlrouter.conf.tmp'']
    = [delete_file ''/home/u/router/mysqlrouter.conf.tmp'', rmdir ''/home/u/router/run'',
       rmdir ''/home/u/router/log'', delete_recursive ''router'']
  \<and> destroy (run_guard [AddDirectory ''router'' True, AddDirectory ''/home/u/router/log'' False,
       AddDirectory ''/home/u/router/run'' False, AddFile ''/home/u/router/mysqlrouter.conf.tmp''])
    \<noteq> spec_teardown [AddDirectory ''router'' True, AddDirectory ''/home/u/router/log'' False,
       AddDirectory ''/home/u/router/run'' False, AddFile ''/home/u/router/mysqlrouter.conf.tmp'']"
  by (simp add: run_guard_def add_file_def add_directory_def destroy_def removal_def
      spec_teardown_def)

subsection \<open>Metadata discovery\<close>

lemma query_rows_append:
  "query_rows st (xs @ ys) =
     (case query_rows st xs of Inl e \<Rightarrow> Inl e | Inr st' \<Rightarrow> query_rows st' ys)"
  by (induction xs arbitrary: st) (auto split: sum.splits)

lemma row_callback_agreeing:
  assumes "get_string (cluster_name_col r) = metadata_cluster st \<or> metadata_cluster st = []"
    and "get_string (replicaset_name_col r) = metadata_replicaset st \<or> metadata_replicaset st = []"
    and "topology_type_col r = None \<or> topology_type_col r = Some ''mm'' \<or> topology_type_col r = Some ''pm''"
  shows "\<exists>st'. row_callback st r = Inr st'
       \<and> metadata_cluster st' = get_string (cluster_name_col r)
       \<and> metadata_replicaset st' = get_string (replicaset_name_col r)"
  using assms by (auto simp: row_callback_def Let_def split: option.splits if_splits)



lemma row_callback_unknown_topology:
  assumes "get_string (cluster_name_col r) = metadata_cluster st \<or> metadata_cluster st = []"
    and "get_string (replicaset_name_col r) = metadata_replicaset st \<or> metadata_replicaset st = []"
    and "topology_type_col r = Some t" "t \<noteq> ''mm''" "t \<noteq> ''pm''"
  shows "row_callback st r = Inl (UnknownTopologyType t)"
  using assms by (auto simp: row_callback_def Let_def)

lemma query_rows_agreeing:
  assumes "metadata_cluster st \<noteq> []" "metadata_replicaset st \<noteq> []"
    and "\<forall>x \<in> set rs. get_string (cluster_name_col x) = metadata_cluster st
            \<and> get_string (replicaset_name_col x) = metadata_replicaset st
            \<and> (topology_type_col x = None \<or> topology_type_col x = Some ''mm''
                \<or> topology_type_col x = Some ''pm'')"
  shows "\<exists>st'. query_rows st rs = Inr st' \<and> metadata_cluster st' = metadata_cluster st
            \<and> metadata_replicaset st' = metadata_replicaset st"
  using assms
proof (induction rs arbitrary: st)
  case Nil
  then show ?case by simp
next
  case (Cons r rs)
  from Cons.prems(3) have a: "get_string (cluster_name_col r) = metadata_cluster st"
    "get_string (replicaset_name_col r) = metadata_replicaset st"
    "topology_type_col r = None \<or> topology_type_col r = Some ''mm'' \<or> topology_type_col r = Some ''pm''"
    by auto
  from row_callback_agreeing [of r st] a obtain st1 where r: "row_callback st r = Inr st1"
    "metadata_cluster st1 = metadata_cluster st" "metadata_replicaset st1 = metadata_replicaset st"
    by auto
  have "\<exists>st'. query_rows st1 rs = Inr st' \<and> metadata_cluster st' = metadata_cluster st1
            \<and> metadata_replicaset st' = metadata_replicaset st1"
    using Cons.prems r by (intro Cons.IH) auto
  then show ?case using r by auto
qed

lemma query_rows_prefix:
  assumes c: "get_string (cluster_name_col r) \<noteq> []" and s: "get_string (replicaset_name_col r) \<noteq> []"
    and ok: "\<forall>x \<in> set (r # pre). get_string (cluster_name_col x) = get_string (cluster_name_col r)
            \<and> get_string (replicaset_name_col x) = get_string (replicaset_name_col r)
            \<and> (topology_type_col x = None \<or> topology_type_col x = Some ''mm''
                \<or> topology_type_col x = Some ''pm'')"
  shows "\<exists>st. query_rows \<lparr> bootstrap_servers = [], metadata_cluster = [], metadata_replicaset = [],
                 topology_multi_master = mm0 \<rparr> (r # pre) = Inr st
           \<and> metadata_cluster st = get_string (cluster_name_col r)
           \<and> metadata_replicaset st = get_string (replicaset_name_col r)"
proof -
  let ?init = "\<lparr> bootstrap_servers = [], metadata_cluster = [], metadata_replicaset = [],
                 topology_multi_master = mm0 \<rparr>"
  from ok have t: "topology_type_col r = None \<or> topology_type_col r = Some ''mm''
                \<or> topology_type_col r = Some ''pm''" by simp
  have e1: "get_string (cluster_name_col r) = metadata_cluster ?init \<or> metadata_cluster ?init = []"
    by simp
  have e2: "get_string (replicaset_name_col r) = metadata_replicaset ?init \<or> metadata_replicaset ?init = []"
    by simp
  from row_callback_agreeing [OF e1 e2 t] obtain st1 where
    r: "row_callback ?init r = Inr st1" and n1: "metadata_cluster st1 = get_string (cluster_name_col r)"
       and n2: "metadata_replicaset st1 = get_string (replicaset_name_col r)"
    by blast
  have c1: "metadata_cluster st1 \<noteq> []" using c n1 by simp
  have s1: "metadata_replicaset st1 \<noteq> []" using s n2 by simp
  have ok1: "\<forall>x \<in> set pre. get_string (cluster_name_col x) = metadata_cluster st1
            \<and> get_string (replicaset_name_col x) = metadata_replicaset st1
            \<and> (topology_type_col x = None \<or> topology_type_col x = Some ''mm''
                \<or> topology_type_col x = Some ''pm'')"
    unfolding n1 n2 using ok by simp
  from query_rows_agreeing [OF c1 s1 ok1] obtain st' where
    q: "query_rows st1 pre = Inr st'" and m1: "metadata_cluster st' = metadata_cluster st1"
      and m2: "metadata_replicaset st' = metadata_replicaset st1"
    by blast
  have "query_rows ?init (r # pre) = Inr st'" using r q by simp
  then show ?thesis using m1 m2 n1 n2 by simp
qed

lemma fetch_bootstrap_servers_fails_at:
  assumes c: "get_string (cluster_name_col r) \<noteq> []"
    and s: "get_string (replicaset_name_col r) \<noteq> []"
    and pre: "\<forall>x \<in> set (r # pre).
               get_string (cluster_name_col x) = get_string (cluster_name_col r)
             \<and> get_string (replicaset_name_col x) = get_string (replicaset_name_col r)
             \<and> (topology_type_col x = None \<or> topology_type_col x = Some ''mm''
                 \<or> topology_type_col x = Some ''pm'')"
    and y: "\<And>st1::discovery. metadata_cluster st1 = get_string (cluster_name_col r) \<Longrightarrow>
           metadata_replicaset st1 = get_string (replicaset_name_col r) \<Longrightarrow>
           row_callback st1 y = Inl e"
  shows "fetch_bootstrap_servers (r # pre @ y # post) failure mm0 = Inl e"
proof -
  let ?init = "\<lparr> bootstrap_servers = [], metadata_cluster = [], metadata_replicaset = [],
                 topology_multi_master = mm0 \<rparr>"
  from query_rows_prefix [OF c s pre, of mm0] obtain st1 where
    q: "query_rows ?init (r # pre) = Inr st1"
    and n: "metadata_cluster st1 = get_string (cluster_name_col r)"
      "metadata_replicaset st1 = get_string (replicaset_name_col r)"
    by blast
  have "query_rows ?init ((r # pre) @ y # post) = Inl e"
    unfolding query_rows_append q using y [OF n] by simp
  then have "query_rows ?init (r # pre @ y # post) = Inl e" by simp
  then show ?thesis
    unfolding fetch_bootstrap_servers_def Let_def by (simp del: query_rows.simps)
qed








lemma row_callback_topology:
  assumes "row_callback st r = Inr st'"
  shows "(topology_type_col r = None \<or> topology_type_col r = Some ''mm'' \<or> topology_type_col r = Some ''pm'')
       \<and> topology_multi_master st' =
           (case topology_type_col r of None \<Rightarrow> topology_multi_master st | Some t \<Rightarrow> t = ''mm'')"
  using assms by (auto simp: row_callback_def Let_def split: option.splits if_splits)

lemma query_rows_topology:
  assumes "query_rows st rs = Inr st'"
  shows "(\<forall>t \<in> set (map topology_type_col rs). t = None \<or> t = Some ''mm'' \<or> t = Some ''pm'')
       \<and> topology_multi_master st' =
           (if filter (\<lambda>t. t \<noteq> None) (map topology_type_col rs) = [] then topology_multi_master st
            else last (filter (\<lambda>t. t \<noteq> None) (map topology_type_col rs)) = Some ''mm'')"
  using assms
proof (induction rs arbitrary: st)
  case Nil
  then show ?case by simp
next
  case (Cons r rs)
  let ?ts = "filter (\<lambda>t. t \<noteq> None) (map topology_type_col rs)"
  from Cons.prems obtain st1 where r: "row_callback st r = Inr st1"
    and rest: "query_rows st1 rs = Inr st'"
    by (auto split: sum.splits)
  from row_callback_topology [OF r]
  have v: "topology_type_col r = None \<or> topology_type_col r = Some ''mm'' \<or> topology_type_col r = Some ''pm''"
    and m: "topology_multi_master st1 =
           (case topology_type_col r of None \<Rightarrow> topology_multi_master st | Some t \<Rightarrow> t = ''mm'')"
    by simp_all
  from Cons.IH [OF rest]
  have vs: "\<forall>t \<in> set (map topology_type_col rs). t = None \<or> t = Some ''mm'' \<or> t = Some ''pm''"
    and ms: "topology_multi_master st' =
           (if ?ts = [] then topology_multi_master st1 else last ?ts = Some ''mm'')"
    by simp_all
  have all: "\<forall>t \<in> set (map topology_type_col (r # rs)). t = None \<or> t = Some ''mm'' \<or> t = Some ''pm''"
    using v vs by simp
  have val: "topology_multi_master st' =
           (if filter (\<lambda>t. t \<noteq> None) (map topology_type_col (r # rs)) = [] then topology_multi_master st
            else last (filter (\<lambda>t. t \<noteq> None) (map topology_type_col (r # rs))) = Some ''mm'')"
  proof (cases "topology_type_col r")
    case None
    then show ?thesis using ms m by simp
  next
    case (Some t)
    then show ?thesis using ms m by simp
  qed
  from all val show ?case by blast
qed




text \<open>
  C5 (as amended). The topology-type column is read on every row: \<open>mm\<close> sets
  multi-primary, \<open>pm\<close> sets single-primary, NULL leaves the value as it is. A run
  that returns has met only these three values, and reports the value of the last row
  whose column is not NULL (the caller's value if there is none); rows of one replicaset
  that disagree raise no error. Any other value raises the unknown-topology-type error,
  in the first row and in a row that follows rows of its own cluster and replicaset
  with known values.
\<close>

theorem fetch_bootstrap_servers_topology_last_row_wins:
  "(fetch_bootstrap_servers rows failure mm0 = Inr st \<longrightarrow>
      (\<forall>t \<in> set (map topology_type_col rows). t = None \<or> t = Some ''mm'' \<or> t = Some ''pm'')
    \<and> topology_multi_master st =
        (if filter (\<lambda>t. t \<noteq> None) (map topology_type_col rows) = [] then mm0
         else last (filter (\<lambda>t. t \<noteq> None) (map topology_type_col rows)) = Some ''mm''))
   \<and> (topology_type_col r = Some t \<and> t \<noteq> ''mm'' \<and> t \<noteq> ''pm'' \<longrightarrow>
        fetch_bootstrap_servers (r # rs) failure mm0 = Inl (UnknownTopologyType t))
   \<and> (get_string (cluster_name_col r) \<noteq> [] \<and> get_string (replicaset_name_col r) \<noteq> []
       \<and> (\<forall>x \<in> set (r # pre).
               get_string (cluster_name_col x) = get_string (cluster_name_col r)
             \<and> get_string (replicaset_name_col x) = get_string (replicaset_name_col r)
             \<and> (topology_type_col x = None \<or> topology_type_col x = Some ''mm''
                 \<or> topology_type_col x = Some ''pm''))
       \<and> get_string (cluster_name_col y) = get_string (cluster_name_col r)
       \<and> get_string (replicaset_name_col y) = get_string (replicaset_name_col r)
       \<and> topology_type_col y = Some t \<and> t \<noteq> ''mm'' \<and> t \<noteq> ''pm'' \<longrightarrow>
        fetch_bootstrap_servers (r # pre @ y # post) failure mm0 = Inl (UnknownTopologyType t))"
proof -
  let ?init = "\<lparr> bootstrap_servers = [], metadata_cluster = [], metadata_replicaset = [],
                 topology_multi_master = mm0 \<rparr>"
  have ok: "(\<forall>t \<in> set (map topology_type_col rows). t = None \<or> t = Some ''mm'' \<or> t = Some ''pm'')
    \<and> topology_multi_master st =
        (if filter (\<lambda>t. t \<noteq> None) (map topology_type_col rows) = [] then mm0
         else last (filter (\<lambda>t. t \<noteq> None) (map topology_type_col rows)) = Some ''mm'')"
    if "fetch_bootstrap_servers rows failure mm0 = Inr st"
  proof -
    from that have q: "query_rows ?init rows = Inr st"
      unfolding fetch_bootstrap_servers_def Let_def
      by (simp split: sum.splits option.splits if_splits)
    from query_rows_topology [OF q] show ?thesis by simp
  qed
  have bad: "fetch_bootstrap_servers (r # rs) failure mm0 = Inl (UnknownTopologyType t)"
    if "topology_type_col r = Some t" "t \<noteq> ''mm''" "t \<noteq> ''pm''"
  proof -
    have "row_callback ?init r = Inl (UnknownTopologyType t)"
      using that by (intro row_callback_unknown_topology) simp_all
    then show ?thesis unfolding fetch_bootstrap_servers_def Let_def by simp
  qed
  have later: "fetch_bootstrap_servers (r # pre @ y # post) failure mm0 = Inl (UnknownTopologyType t)"
    if c: "get_string (cluster_name_col r) \<noteq> []" and s: "get_string (replicaset_name_col r) \<noteq> []"
      and pre: "\<forall>x \<in> set (r # pre).
               get_string (cluster_name_col x) = get_string (cluster_name_col r)
             \<and> get_string (replicaset_name_col x) = get_string (replicaset_name_col r)
             \<and> (topology_type_col x = None \<or> topology_type_col x = Some ''mm''
                 \<or> topology_type_col x = Some ''pm'')"
      and y: "get_string (cluster_name_col y) = get_string (cluster_name_col r)"
        "get_string (replicaset_name_col y) = get_string (replicaset_name_col r)"
        "topology_type_col y = Some t" "t \<noteq> ''mm''" "t \<noteq> ''pm''"
  proof (rule fetch_bootstrap_servers_fails_at [OF c s pre])
    fix st1 :: discovery assume "metadata_cluster st1 = get_string (cluster_name_col r)"
      "metadata_replicaset st1 = get_string (replicaset_name_col r)"
    then show "row_callback st1 y = Inl (UnknownTopologyType t)"
      using y by (intro row_callback_unknown_topology) simp_all
  qed
  from ok bad later show ?thesis by blast
qed

theorem fetch_bootstrap_servers_topology_last_row_wins_witness:
  "topology_multi_master (projr (fetch_bootstrap_servers
     [\<lparr> cluster_name_col = Some ''prod'', replicaset_name_col = Some ''default'',
          topology_type_col = Some ''mm'', address_col = Some ''db1:3306'' \<rparr>,
      \<lparr> cluster_name_col = Some ''prod'', replicaset_name_col = Some ''default'',
          topology_type_col = None, address_col = Some ''db2:3306'' \<rparr>] None False)) = True
   \<and> fetch_bootstrap_servers
     [\<lparr> cluster_name_col = Some ''prod'', replicaset_name_col = Some ''default'',
          topology_type_col = Some ''xx'', address_col = Some ''db1:3306'' \<rparr>] None False
     = Inl (UnknownTopologyType ''xx'')"
proof -
  let ?rows = "[\<lparr> cluster_name_col = Some ''prod'', replicaset_name_col = Some ''default'',
          topology_type_col = Some ''mm'', address_col = Some ''db1:3306'' \<rparr>,
      \<lparr> cluster_name_col = Some ''prod'', replicaset_name_col = Some ''default'',
          topology_type_col = None, address_col = Some ''db2:3306'' \<rparr>]"
  have "\<exists>st. fetch_bootstrap_servers ?rows None False = Inr st"
    by (simp add: fetch_bootstrap_servers_def row_callback_def get_string_def)
  then obtain st where e: "fetch_bootstrap_servers ?rows None False = Inr st" by blast
  have a: "topology_multi_master st = True"
    using fetch_bootstrap_servers_topology_last_row_wins
      [of ?rows None False st "hd ?rows" "[]" "[]" "[]" "hd ?rows" "[]"] e
    by simp
  have b: "fetch_bootstrap_servers
     [\<lparr> cluster_name_col = Some ''prod'', replicaset_name_col = Some ''default'',
          topology_type_col = Some ''xx'', address_col = Some ''db1:3306'' \<rparr>] None False
     = Inl (UnknownTopologyType ''xx'')"
    using fetch_bootstrap_servers_topology_last_row_wins [of "[]" None False
          "\<lparr> bootstrap_servers = [], metadata_cluster = [], metadata_replicaset = [],
             topology_multi_master = False \<rparr>"
          "\<lparr> cluster_name_col = Some ''prod'', replicaset_name_col = Some ''default'',
          topology_type_col = Some ''xx'', address_col = Some ''db1:3306'' \<rparr>" "''xx''" "[]" "[]"
          "\<lparr> cluster_name_col = Some ''prod'', replicaset_name_col = Some ''default'',
          topology_type_col = Some ''xx'', address_col = Some ''db1:3306'' \<rparr>" "[]"]
    by simp
  from a b e show ?thesis by simp
qed

text \<open>
  Two rows of one replicaset, the first \<open>mm\<close>, the second \<open>pm\<close>: the run returns,
  and reports single-primary.
\<close>

theorem fetch_bootstrap_servers_topology_not_checked:
  "fetch_bootstrap_servers
     [\<lparr> cluster_name_col = Some ''prod'', replicaset_name_col = Some ''default'',
          topology_type_col = Some ''mm'', address_col = Some ''db1:3306'' \<rparr>,
      \<lparr> cluster_name_col = Some ''prod'', replicaset_name_col = Some ''default'',
          topology_type_col = Some ''pm'', address_col = Some ''db2:3306'' \<rparr>] None True
   = Inr \<lparr> bootstrap_servers = ''mysql://db1:3306,mysql://db2:3306'', metadata_cluster = ''prod'',
           metadata_replicaset = ''default'', topology_multi_master = False \<rparr>"
  by (simp add: fetch_bootstrap_servers_def row_callback_def get_string_def)

subsection \<open>The router id of an existing configuration\<close>




subsection \<open>Password generation\<close>

lemma strlen_alphabet: "strlen alphabet = 89"
  by (simp add: strlen_def alphabet_def c_str_def)

lemma length_alphabet: "length alphabet = 89"
  by (simp add: alphabet_def)

lemma distinct_alphabet: "distinct alphabet"
  by (simp add: alphabet_def)

lemma generate_password_loop_map:
  "0 \<le> i \<Longrightarrow> generate_password_loop dist n i pwd =
     pwd @ map (\<lambda>k. alphabet ! dist k) [nat i ..< nat n]"
proof (induction dist n i pwd rule: generate_password_loop.induct)
  case (1 dist n i pwd)
  show ?case
  proof (cases "i < n")
    case True
    with "1.prems" have lt: "nat i < nat n" and suc: "nat (i + 1) = Suc (nat i)" by simp_all
    have "generate_password_loop dist n i pwd =
        generate_password_loop dist n (i + 1) (pwd @ [alphabet ! dist (nat i)])"
      using True by simp
    also have "\<dots> = (pwd @ [alphabet ! dist (nat i)]) @ map (\<lambda>k. alphabet ! dist k) [nat (i + 1) ..< nat n]"
      using True "1.prems" by (intro "1.IH") simp_all
    also have "\<dots> = pwd @ map (\<lambda>k. alphabet ! dist k) [nat i ..< nat n]"
      using lt by (simp add: suc upt_conv_Cons)
    finally show ?thesis .
  next
    case False
    with "1.prems" have "[nat i ..< nat n] = []" by simp
    then show ?thesis using False by simp
  qed
qed

lemma generate_password_map:
  "generate_password dist kMetadataServerPasswordLength = map (\<lambda>i. alphabet ! dist i) [0..<16]"
  by (simp add: generate_password_def kMetadataServerPasswordLength_def generate_password_loop_map
      del: generate_password_loop.simps)

text \<open>
  C7 (as amended). The alphabet has 89 distinct symbols. When every draw of the
  distribution lies in its range, from 0 to the length of the alphabet minus one, the
  password generated for the fixed length has exactly 16 characters, all of the
  alphabet: character \<open>i\<close> is the symbol at the index drawn in iteration \<open>i\<close>, with no
  reduction modulo the size. Two sequences of draws give the same password only if
  they agree on the 16 draws, so equally likely draws give equally likely passwords.
\<close>

theorem generate_password_from_alphabet:
  assumes d: "\<forall>i. dist i \<le> strlen alphabet - 1"
  shows "length (generate_password dist kMetadataServerPasswordLength) = 16
       \<and> set (generate_password dist kMetadataServerPasswordLength) \<subseteq> set alphabet
       \<and> strlen alphabet = 89 \<and> distinct alphabet
       \<and> generate_password dist kMetadataServerPasswordLength = map (\<lambda>i. alphabet ! dist i) [0..<16]
       \<and> ((\<forall>i. dist' i \<le> strlen alphabet - 1) \<longrightarrow>
            (generate_password dist kMetadataServerPasswordLength
               = generate_password dist' kMetadataServerPasswordLength
             \<longleftrightarrow> (\<forall>i<16. dist i = dist' i)))"
proof -
  have lt: "dist i < length alphabet" for i
  proof -
    from d have "dist i \<le> strlen alphabet - 1" by blast
    then show ?thesis by (simp add: strlen_alphabet length_alphabet)
  qed
  have len: "length (generate_password dist kMetadataServerPasswordLength) = 16"
    by (simp add: generate_password_map)
  have sub: "set (generate_password dist kMetadataServerPasswordLength) \<subseteq> set alphabet"
    unfolding generate_password_map using lt by (auto simp del: upt_Suc)
  have inj: "generate_password dist kMetadataServerPasswordLength
               = generate_password dist' kMetadataServerPasswordLength
             \<longleftrightarrow> (\<forall>i<16. dist i = dist' i)"
    if d': "\<forall>i. dist' i \<le> strlen alphabet - 1"
  proof -
    have lt': "dist' i < length alphabet" for i
    proof -
      from d' have "dist' i \<le> strlen alphabet - 1" by blast
      then show ?thesis by (simp add: strlen_alphabet length_alphabet)
    qed
    have "map (\<lambda>i. alphabet ! dist i) [0..<16] = map (\<lambda>i. alphabet ! dist' i) [0..<16]
        \<longleftrightarrow> (\<forall>i \<in> set [0..<16]. alphabet ! dist i = alphabet ! dist' i)"
      by (rule map_eq_conv)
    also have "\<dots> \<longleftrightarrow> (\<forall>i<16. dist i = dist' i)"
      using lt lt' by (auto simp: nth_eq_iff_index_eq [OF distinct_alphabet] simp del: upt_Suc)
    finally show ?thesis unfolding generate_password_map .
  qed
  from len sub inj show ?thesis
    by (simp add: strlen_alphabet distinct_alphabet generate_password_map del: upt_Suc)
qed

theorem generate_password_from_alphabet_witness:
  "length (generate_password (\<lambda>i. 88 - i mod 89) kMetadataServerPasswordLength) = 16
   \<and> set (generate_password (\<lambda>i. 88 - i mod 89) kMetadataServerPasswordLength) \<subseteq> set alphabet"
proof -
  have p: "\<forall>i::nat. 88 - i mod 89 \<le> strlen alphabet - 1" by (simp add: strlen_alphabet)
  from generate_password_from_alphabet [OF p, of "\<lambda>i. 0"] show ?thesis by blast
qed

text \<open>The alphabet of the source has 89 symbols, not 92.\<close>

theorem alphabet_has_89_symbols: "strlen alphabet = 89 \<and> card (set alphabet) = 89 \<and> card (set alphabet) \<noteq> 92"
  using distinct_card [OF distinct_alphabet] by (simp add: strlen_alphabet length_alphabet)

end
